theory Spec2Isabelle
  imports Complex_Main
begin

section \<open>JavaScript numbers\<close>

text \<open>
  The engine computes on JavaScript numbers, which are IEEE-754 doubles. They are modelled
  as the real numbers extended with the three special values that the code can produce
  (\<open>NaN\<close>, \<open>-Infinity\<close>, \<open>+Infinity\<close>). The special values follow IEEE-754:
  \<open>Math.log(0) = -Infinity\<close>, \<open>0 * Infinity = NaN\<close>, \<open>x / 0 = \<plusminus>Infinity\<close>,
  \<open>0 / 0 = NaN\<close>, \<open>Math.exp(-Infinity) = 0\<close>, and every comparison with \<open>NaN\<close> is false.

  On finite values the model has the range effects that decide whether the Poisson grid
  vanishes. A product, and a result of \<open>Math.exp\<close>, of magnitude at most \<open>2^-1075\<close> (half
  the smallest positive double) is 0, as rounding to nearest makes it; \<open>Math.exp\<close> is
  \<open>+Infinity\<close> from \<open>2^1024 - 2^970\<close> on, where rounding to nearest overflows.

  Everything else is exact: the rounding of the significand to 53 bits is not modelled,
  nor the overflow of sums, products and quotients, nor the underflow of quotients, and
  zero carries no sign (it behaves as \<open>+0\<close>). So a finite value of the model and the double
  that the code computes differ by the rounding of the operations that led to it, and a
  property of the code that is decided by such a rounding is out of reach of the model.
\<close>

datatype number = NaN | NegInf | PosInf | Fin real

definition underflow_bound :: real where
  "underflow_bound = 1 / 2 ^ 1075"

definition overflow_bound :: real where
  "overflow_bound = 2 ^ 1024 - 2 ^ 970"

text \<open>A finite result too small for a double becomes 0.\<close>

definition flush :: "real \<Rightarrow> real" where
  "flush z = (if \<bar>z\<bar> \<le> underflow_bound then 0 else z)"

instantiation number :: "{one, uminus, minus, times, inverse, ord, comm_monoid_add}"
begin

definition zero_number :: number where
  "zero_number = Fin 0"

definition one_number :: number where
  "one_number = Fin 1"

fun uminus_number :: "number \<Rightarrow> number" where
  "uminus_number NaN = NaN"
| "uminus_number NegInf = PosInf"
| "uminus_number PosInf = NegInf"
| "uminus_number (Fin a) = Fin (- a)"

fun plus_number :: "number \<Rightarrow> number \<Rightarrow> number" where
  "plus_number NaN y = NaN"
| "plus_number x NaN = NaN"
| "plus_number PosInf NegInf = NaN"
| "plus_number NegInf PosInf = NaN"
| "plus_number PosInf y = PosInf"
| "plus_number x PosInf = PosInf"
| "plus_number NegInf y = NegInf"
| "plus_number x NegInf = NegInf"
| "plus_number (Fin a) (Fin b) = Fin (a + b)"

definition minus_number :: "number \<Rightarrow> number \<Rightarrow> number" where
  "minus_number x y = x + (- y)"

text \<open>The sign of a non-NaN number: \<open>-1\<close>, \<open>0\<close> or \<open>1\<close>.\<close>

fun sign_of :: "number \<Rightarrow> int" where
  "sign_of NaN = 0"
| "sign_of NegInf = - 1"
| "sign_of PosInf = 1"
| "sign_of (Fin a) = (if a < 0 then - 1 else if a = 0 then 0 else 1)"

definition signed_inf :: "int \<Rightarrow> number" where
  "signed_inf s = (if s = 0 then NaN else if s < 0 then NegInf else PosInf)"

fun times_number :: "number \<Rightarrow> number \<Rightarrow> number" where
  "times_number NaN y = NaN"
| "times_number x NaN = NaN"
| "times_number (Fin a) (Fin b) = Fin (flush (a * b))"
| "times_number x y = signed_inf (sign_of x * sign_of y)"

fun divide_number :: "number \<Rightarrow> number \<Rightarrow> number" where
  "divide_number NaN y = NaN"
| "divide_number x NaN = NaN"
| "divide_number (Fin a) (Fin b) =
     (if b = 0 then signed_inf (sign_of (Fin a)) else Fin (a / b))"
| "divide_number (Fin a) y = Fin 0"
| "divide_number x (Fin b) = (if b < 0 then - x else x)"
| "divide_number x y = NaN"

definition inverse_number :: "number \<Rightarrow> number" where
  "inverse_number x = divide (Fin 1) x"

fun less_number :: "number \<Rightarrow> number \<Rightarrow> bool" where
  "less_number NaN y = False"
| "less_number x NaN = False"
| "less_number x NegInf = False"
| "less_number PosInf y = False"
| "less_number NegInf y = True"
| "less_number x PosInf = True"
| "less_number (Fin a) (Fin b) = (a < b)"

fun less_eq_number :: "number \<Rightarrow> number \<Rightarrow> bool" where
  "less_eq_number NaN y = False"
| "less_eq_number x NaN = False"
| "less_eq_number NegInf y = True"
| "less_eq_number x PosInf = True"
| "less_eq_number x NegInf = False"
| "less_eq_number PosInf y = False"
| "less_eq_number (Fin a) (Fin b) = (a \<le> b)"

instance
proof (standard, goal_cases)
  case (1 x y z)
  show ?case
    by (cases x; cases y; cases z) simp_all
next
  case (2 x y)
  show ?case
    by (cases x; cases y) simp_all
next
  case (3 x)
  show ?case
    by (cases x) (simp_all add: zero_number_def)
qed

end

text \<open>\<open>Math.log\<close> and \<open>Math.exp\<close>.\<close>

fun Math_log :: "number \<Rightarrow> number" where
  "Math_log NaN = NaN"
| "Math_log NegInf = NaN"
| "Math_log PosInf = PosInf"
| "Math_log (Fin a) = (if a < 0 then NaN else if a = 0 then NegInf else Fin (ln a))"

fun Math_exp :: "number \<Rightarrow> number" where
  "Math_exp NaN = NaN"
| "Math_exp NegInf = Fin 0"
| "Math_exp PosInf = PosInf"
| "Math_exp (Fin a) =
     (if exp a \<le> underflow_bound then Fin 0
      else if overflow_bound \<le> exp a then PosInf
      else Fin (exp a))"

definition Math_PI :: number where
  "Math_PI = Fin pi"

text \<open>Truthiness of a number in a condition: \<open>0\<close> and \<open>NaN\<close> are falsy.\<close>

fun truthy :: "number \<Rightarrow> bool" where
  "truthy NaN = False"
| "truthy (Fin a) = (a \<noteq> 0)"
| "truthy x = True"

text \<open>A loop counter or goal count, an integer, used as a number.\<close>

definition num :: "int \<Rightarrow> number" where
  "num k = Fin (of_int k)"

section \<open>Numeric primitives\<close>

text \<open>
  \<open>logFactorial\<close>: zero up to 1, the loop \<open>for (i = 2; i <= k; i++) result += Math.log(i)\<close>
  below 20, Stirling's formula from 20 on. Goal counts are integers.
\<close>

definition logFactorial :: "int \<Rightarrow> number" where
  "logFactorial k =
     (if k \<le> 1 then Fin 0
      else if k < 20 then foldl (\<lambda>result i. result + Math_log (num i)) (Fin 0) [2..k]
      else num k * Math_log (num k) - num k + Fin 0.5 * Math_log (Fin 2 * Math_PI * num k))"

definition poissonProbability :: "number \<Rightarrow> int \<Rightarrow> number" where
  "poissonProbability lambda k =
     (if k < 0 then Fin 0
      else let logProb = num k * Math_log lambda - lambda - logFactorial k
           in Math_exp logProb)"

section \<open>Correlation adjustment\<close>

definition dixonColesTau :: "int \<Rightarrow> int \<Rightarrow> number \<Rightarrow> number" where
  "dixonColesTau homeGoals awayGoals rho =
     (if homeGoals = 0 \<and> awayGoals = 0 then Fin 1 - rho
      else if homeGoals = 0 \<and> awayGoals = 1 then Fin 1 + rho
      else if homeGoals = 1 \<and> awayGoals = 0 then Fin 1 + rho
      else if homeGoals = 1 \<and> awayGoals = 1 then Fin 1 - rho
      else Fin 1)"

section \<open>Score-matrix builder\<close>

text \<open>
  The three passes of \<open>calculateScoreMatrix\<close> over the grid \<open>0..maxGoals\<close> in both
  directions: the products of the two Poisson probabilities, the correction of every cell
  in place, and the division of every cell by the sum of \<open>matrix.flat()\<close>.
\<close>

definition firstPass :: "number \<Rightarrow> number \<Rightarrow> int \<Rightarrow> number list list" where
  "firstPass lambdaHome lambdaAway maxGoals =
     map (\<lambda>home. map (\<lambda>away.
            let probHome = poissonProbability lambdaHome home;
                probAway = poissonProbability lambdaAway away
            in probHome * probAway) [0..maxGoals]) [0..maxGoals]"

definition secondPass :: "number list list \<Rightarrow> int \<Rightarrow> number \<Rightarrow> number list list" where
  "secondPass matrix maxGoals rho =
     map (\<lambda>home. map (\<lambda>away.
            let tau = dixonColesTau home away rho
            in matrix ! nat home ! nat away * tau) [0..maxGoals]) [0..maxGoals]"

definition normalize_matrix :: "number list list \<Rightarrow> int \<Rightarrow> number list list" where
  "normalize_matrix matrix maxGoals =
     (let total = foldl (\<lambda>sum' prob. sum' + prob) (Fin 0) (concat matrix)
      in map (\<lambda>home. map (\<lambda>away. matrix ! nat home ! nat away / total) [0..maxGoals])
           [0..maxGoals])"

text \<open>
  The optional parameters \<open>maxGoals = 10\<close> and \<open>rho = -0.13\<close>: \<open>None\<close> is an argument left
  out, which takes the default.
\<close>

definition calculateScoreMatrix ::
  "number \<Rightarrow> number \<Rightarrow> int option \<Rightarrow> number option \<Rightarrow> number list list" where
  "calculateScoreMatrix lambdaHome lambdaAway maxGoalsArg rhoArg =
     (let maxGoals = (case maxGoalsArg of None \<Rightarrow> 10 | Some m \<Rightarrow> m);
          rho = (case rhoArg of None \<Rightarrow> Fin (- 0.13) | Some r \<Rightarrow> r)
      in normalize_matrix (secondPass (firstPass lambdaHome lambdaAway maxGoals) maxGoals rho) maxGoals)"

section \<open>Outcome aggregator\<close>

record MatchPrediction =
  probHome :: number
  probDraw :: number
  probAway :: number
  xgHome :: number
  xgAway :: number
  prob0_0 :: number
  probOver2_5 :: number
  probBTTS :: number

text \<open>The five running sums of the loop in \<open>predictMatch\<close>.\<close>

record tally =
  accHome :: number
  accDraw :: number
  accAway :: number
  accOver2_5 :: number
  accBTTS :: number

text \<open>The body of the inner loop, for the cell \<open>(home, away)\<close>.\<close>

definition tallyCell :: "number list list \<Rightarrow> int \<Rightarrow> int \<Rightarrow> tally \<Rightarrow> tally" where
  "tallyCell matrix home away t =
     (let prob = matrix ! nat home ! nat away;
          t1 = (if home > away then t\<lparr>accHome := accHome t + prob\<rparr>
                else if home = away then t\<lparr>accDraw := accDraw t + prob\<rparr>
                else t\<lparr>accAway := accAway t + prob\<rparr>);
          t2 = (if num (home + away) > Fin 2.5 then t1\<lparr>accOver2_5 := accOver2_5 t1 + prob\<rparr>
                else t1)
      in if home > 0 \<and> away > 0 then t2\<lparr>accBTTS := accBTTS t2 + prob\<rparr> else t2)"

definition tallyRow :: "number list list \<Rightarrow> int \<Rightarrow> int \<Rightarrow> tally \<Rightarrow> tally" where
  "tallyRow matrix maxGoals home t =
     foldl (\<lambda>t away. tallyCell matrix home away t) t [0..maxGoals]"

definition tallyMatrix :: "number list list \<Rightarrow> int \<Rightarrow> tally \<Rightarrow> tally" where
  "tallyMatrix matrix maxGoals t =
     foldl (\<lambda>t home. tallyRow matrix maxGoals home t) t [0..maxGoals]"

definition predictMatch :: "number \<Rightarrow> number \<Rightarrow> MatchPrediction" where
  "predictMatch lambdaHome lambdaAway =
     (let matrix = calculateScoreMatrix lambdaHome lambdaAway None None;
          maxGoals = int (length matrix) - 1;
          t = tallyMatrix matrix maxGoals
                \<lparr>accHome = Fin 0, accDraw = Fin 0, accAway = Fin 0,
                 accOver2_5 = Fin 0, accBTTS = Fin 0\<rparr>
      in \<lparr>probHome = accHome t, probDraw = accDraw t, probAway = accAway t,
          xgHome = lambdaHome, xgAway = lambdaAway, prob0_0 = matrix ! 0 ! 0,
          probOver2_5 = accOver2_5 t, probBTTS = accBTTS t\<rparr>)"

text \<open>
  The sum of the cells \<open>(home, away)\<close> of a square grid that satisfy a condition, as the
  description of the aggregator words it.
\<close>

definition sumCells :: "(int \<Rightarrow> int \<Rightarrow> bool) \<Rightarrow> number list list \<Rightarrow> number" where
  "sumCells P matrix =
     sum_list (concat (map (\<lambda>home.
       map (\<lambda>away. matrix ! nat home ! nat away)
         (filter (P home) [0..int (length matrix) - 1])) [0..int (length matrix) - 1]))"

section \<open>Market-efficiency analyzers\<close>

record ValueBet =
  hasValue :: bool
  edge :: number
  fairOdds :: number

definition findValueBet :: "number \<Rightarrow> number \<Rightarrow> number option \<Rightarrow> ValueBet" where
  "findValueBet trueProbability odds marginArg =
     (let margin = (case marginArg of None \<Rightarrow> Fin 0.05 | Some m \<Rightarrow> m);
          impliedProbability = Fin 1 / odds;
          fairOdds' = Fin 1 / trueProbability;
          edge' = (trueProbability - impliedProbability) / impliedProbability
      in \<lparr>hasValue = edge' > margin, edge = edge' * Fin 100, fairOdds = fairOdds'\<rparr>)"

record Arbitrage =
  isArbitrage :: bool
  profitMargin :: number

text \<open>\<open>odds3\<close> is optional, and pushed only when it is truthy.\<close>

definition detectArbitrage :: "number \<Rightarrow> number \<Rightarrow> number option \<Rightarrow> Arbitrage" where
  "detectArbitrage odds1 odds2 odds3 =
     (let probs = [Fin 1 / odds1, Fin 1 / odds2] @
            (case odds3 of
               None \<Rightarrow> []
             | Some o3 \<Rightarrow> if truthy o3 then [Fin 1 / o3] else []);
          totalImplied = foldl (\<lambda>sum' prob. sum' + prob) (Fin 0) probs;
          profitMargin' = (Fin 1 / totalImplied - Fin 1) * Fin 100
      in \<lparr>isArbitrage = totalImplied < Fin 1, profitMargin = profitMargin'\<rparr>)"

section \<open>Auxiliary notions for the proofs\<close>

text \<open>The real value of a finite number.\<close>

fun fin_val :: "number \<Rightarrow> real" where
  "fin_val (Fin a) = a"
| "fin_val x = 0"

text \<open>
  The cell \<open>(h, a)\<close> after the second pass, and the sum of these cells over the grid
  \<open>0..m\<close>, by which the third pass divides.
\<close>

definition cellRaw :: "number \<Rightarrow> number \<Rightarrow> number \<Rightarrow> int \<Rightarrow> int \<Rightarrow> number" where
  "cellRaw lh la rho h a =
     poissonProbability lh h * poissonProbability la a * dixonColesTau h a rho"

definition gridTotal :: "number \<Rightarrow> number \<Rightarrow> int \<Rightarrow> number \<Rightarrow> number" where
  "gridTotal lh la m rho = (\<Sum>h\<in>{0..m}. \<Sum>a\<in>{0..m}. cellRaw lh la rho h a)"

section \<open>Arithmetic of numbers\<close>

lemma Fin_minus [simp]: "Fin a - Fin b = Fin (a - b)"
  by (simp add: minus_number_def)

lemma num_simp [simp]: "num k = Fin (real_of_int k)"
  by (simp add: num_def)

lemma Fin_0_add [simp]: "Fin 0 + x = x"
  using add_0_left [of x] by (simp add: zero_number_def)

lemma add_Fin_0 [simp]: "x + Fin 0 = x"
  using add_0_right [of x] by (simp add: zero_number_def)

lemma foldl_plus_sum_list: "foldl (\<lambda>s p. s + p) a xs = a + sum_list (xs :: number list)"
  by (induction xs arbitrary: a) (simp_all add: add.assoc)

lemma foldl_plus_map: "foldl (\<lambda>s i. s + f i) a xs = a + sum_list (map f xs :: number list)"
  by (induction xs arbitrary: a) (simp_all add: add.assoc)

lemma sum_Fin: "finite S \<Longrightarrow> (\<Sum>x\<in>S. Fin (f x)) = Fin (\<Sum>x\<in>S. f x)"
  by (induction S rule: finite_induct) (simp_all add: zero_number_def)

lemma sum_list_upto: "sum_list (map f [i..j]) = (\<Sum>k\<in>{i..j}. f k)" for f :: "int \<Rightarrow> 'a::comm_monoid_add"
  by (simp add: sum_list_distinct_conv_sum_set)

lemma NaN_minus [simp]: "NaN - x = NaN"
  by (simp add: minus_number_def)

lemma NaN_in_sum_list: "NaN \<in> set xs \<Longrightarrow> sum_list xs = NaN"
proof (induction xs)
  case Nil
  then show ?case by simp
next
  case (Cons x xs)
  then show ?case by (cases x) auto
qed

section \<open>The range of doubles\<close>

lemma ln2_lower: "2 / 3 \<le> ln (2 :: real)"
proof -
  have "exp (1 / 12 :: real) \<le> 1 + 1 / 12 + (1 / 12)\<^sup>2"
    by (rule exp_bound) simp_all
  then have "exp (1 / 12 :: real) ^ 8 \<le> (1 + 1 / 12 + (1 / 12)\<^sup>2) ^ 8"
    by (intro power_mono) simp_all
  also have "\<dots> \<le> 2"
    by (simp add: power2_eq_square power_divide)
  finally have "exp (1 / 12 :: real) ^ 8 \<le> 2" .
  moreover have "exp (2 / 3 :: real) = exp (1 / 12) ^ 8"
    using exp_of_nat_mult [of 8 "1 / 12 :: real"] by simp
  ultimately have "exp (2 / 3 :: real) \<le> 2"
    by simp
  then show ?thesis
    by (subst ln_ge_iff) simp_all
qed

lemma ln2_upper: "ln (2 :: real) \<le> 37 / 50"
proof -
  have "1 + 37 / 400 \<le> exp (37 / 400 :: real)"
    by (rule exp_ge_add_one_self)
  then have "(1 + 37 / 400) ^ 8 \<le> exp (37 / 400 :: real) ^ 8"
    by (intro power_mono) simp_all
  moreover have "exp (37 / 50 :: real) = exp (37 / 400) ^ 8"
    using exp_of_nat_mult [of 8 "37 / 400 :: real"] by simp
  ultimately have "2 \<le> exp (37 / 50 :: real)"
    by (simp add: power_divide)
  then have "exp (ln 2) \<le> exp (37 / 50 :: real)"
    by simp
  then show ?thesis
    by (simp only: exp_le_cancel_iff)
qed

lemma two_power_exp: "(2 :: real) ^ n = exp (real n * ln 2)"
  by (simp add: exp_of_nat_mult)

lemma underflow_bound_exp: "underflow_bound = exp (- (1075 * ln 2))"
proof -
  have "underflow_bound = 1 / exp (real 1075 * ln 2)"
    by (simp only: underflow_bound_def two_power_exp)
  also have "\<dots> = exp (- (1075 * ln 2))"
    by (simp only: exp_minus inverse_eq_divide of_nat_numeral)
  finally show ?thesis .
qed

lemma underflow_bound_pos: "0 < underflow_bound"
  by (simp add: underflow_bound_exp)

lemma overflow_bound_exp: "exp (1023 * ln 2) \<le> overflow_bound"
proof -
  have aux: "c \<le> b \<Longrightarrow> a = 2 * b \<Longrightarrow> b \<le> a - c" for a b c :: real
    by linarith
  have "(2 :: real) ^ 970 \<le> 2 ^ 1023"
    by (rule power_increasing) simp_all
  moreover have "(2 :: real) ^ 1024 = 2 ^ Suc 1023"
    by (rule arg_cong [where f = "\<lambda>n. 2 ^ n"]) simp
  then have "(2 :: real) ^ 1024 = 2 * 2 ^ 1023"
    by (simp only: power_Suc)
  ultimately have "(2 :: real) ^ 1023 \<le> overflow_bound"
    unfolding overflow_bound_def by (rule aux)
  then show ?thesis
    by (simp only: two_power_exp of_nat_numeral)
qed

lemma exp_above_underflow: "- 700 \<le> a \<Longrightarrow> underflow_bound < exp a"
  unfolding underflow_bound_exp using ln2_lower by simp

lemma exp_below_overflow: "a \<le> 200 \<Longrightarrow> exp a < overflow_bound"
proof -
  assume "a \<le> 200"
  then have "a < 1023 * ln 2"
    using ln2_lower by simp
  then have "exp a < exp (1023 * ln 2)"
    by (simp only: exp_less_cancel_iff)
  also note overflow_bound_exp
  finally show ?thesis .
qed

lemma exp_underflows: "a \<le> - 796 \<Longrightarrow> exp a \<le> underflow_bound"
  unfolding underflow_bound_exp using ln2_upper by simp

lemma flush_0 [simp]: "flush 0 = 0"
  by (simp add: flush_def)

lemma flush_id: "underflow_bound < \<bar>z\<bar> \<Longrightarrow> flush z = z"
  by (simp add: flush_def)

lemma flush_exp: "- 700 \<le> a \<Longrightarrow> 1 \<le> \<bar>t\<bar> \<Longrightarrow> flush (exp a * t) = exp a * t"
proof (rule flush_id)
  assume a: "- 700 \<le> a" and t: "1 \<le> \<bar>t\<bar>"
  have "underflow_bound < exp a"
    using a by (rule exp_above_underflow)
  also have "exp a \<le> exp a * \<bar>t\<bar>"
    using t by simp
  finally show "underflow_bound < \<bar>exp a * t\<bar>"
    by (simp add: abs_mult)
qed

lemma flush_ge_one: "1 \<le> \<bar>z\<bar> \<Longrightarrow> flush z = z"
  using flush_exp [of 0 z] by simp

lemma flush_nonneg: "0 \<le> z \<Longrightarrow> 0 \<le> flush z"
  by (simp add: flush_def)

lemma flush_le: "0 \<le> z \<Longrightarrow> flush z \<le> z"
  by (simp add: flush_def)

lemma flush_ge: "z \<le> 0 \<Longrightarrow> z \<le> flush z"
  by (simp add: flush_def)

lemma flush_flush: "flush (flush z * 1) = flush z"
  by (simp add: flush_def)

lemma times_times_Fin_1: "x * y * Fin 1 = x * (y :: number)"
  by (cases x; cases y) (simp_all add: flush_flush [simplified] signed_inf_def)

lemma Math_exp_in_range: "- 700 \<le> a \<Longrightarrow> a \<le> 200 \<Longrightarrow> Math_exp (Fin a) = Fin (exp a)"
  using exp_above_underflow [of a] exp_below_overflow [of a] by simp

lemma Math_exp_underflow: "a \<le> - 796 \<Longrightarrow> Math_exp (Fin a) = Fin 0"
  using exp_underflows [of a] by simp

lemma Math_exp_nonneg: "a \<le> 200 \<Longrightarrow> \<exists>p. Math_exp (Fin a) = Fin p \<and> 0 \<le> p"
  using exp_below_overflow [of a] by simp

lemma underflow_bound_small: "underflow_bound < 1 / 2"
proof -
  have "underflow_bound < exp (- ln 2)"
    using ln2_upper by (intro exp_above_underflow) simp
  then show ?thesis
    by (simp add: exp_minus)
qed

lemma inverse_two_power_exp: "1 / (2 :: real) ^ n = exp (- (real n * ln 2))"
  by (simp only: two_power_exp exp_minus inverse_eq_divide)

lemma flush_ge_half: "1 / 2 \<le> \<bar>z\<bar> \<Longrightarrow> flush z = z"
  using underflow_bound_small by (intro flush_id) simp

lemma flush_le_max: "flush z \<le> max z 0"
  by (simp add: flush_def)

lemma flush_ge_min: "min z 0 \<le> flush z"
  by (simp add: flush_def)

section \<open>The numeric primitives on finite values\<close>

lemma ln_ge_one: "3 \<le> x \<Longrightarrow> 1 \<le> ln (x :: real)"
proof -
  assume "3 \<le> x"
  then have "exp 1 \<le> x"
    using exp_le by simp
  then show ?thesis
    using \<open>3 \<le> x\<close> by (subst ln_ge_iff) simp_all
qed

lemma Math_log_pos: "0 < z \<Longrightarrow> Math_log (Fin z) = Fin (ln z)"
  by simp

lemma Math_log_num: "1 \<le> i \<Longrightarrow> Math_log (num i) = Fin (ln (real_of_int i))"
  by (simp add: num_def)

lemma logFactorial_loop:
  "foldl (\<lambda>result i. result + Math_log (num i)) (Fin 0) [2..k] = Fin (\<Sum>i\<in>{2..k}. ln (real_of_int i))"
proof -
  have "map (\<lambda>i. Math_log (num i)) [2..k] = map (\<lambda>i. Fin (ln (real_of_int i))) [2..k]"
    by (rule map_cong) (auto simp: Math_log_num)
  then show ?thesis
    by (simp add: foldl_plus_map sum_list_upto sum_Fin del: num_simp)
qed

lemma stirling_value:
  assumes "20 \<le> k"
  shows "num k * Math_log (num k) - num k + Fin 0.5 * Math_log (Fin 2 * Math_PI * num k) =
     Fin (real_of_int k * ln (real_of_int k) - real_of_int k
            + 0.5 * ln (2 * pi * real_of_int k))"
proof -
  let ?r = "real_of_int k"
  have r: "20 \<le> ?r"
    using assms by simp
  have pi: "2 \<le> pi"
    by (rule pi_ge_two)
  have l1: "1 \<le> ln ?r"
    using r by (intro ln_ge_one) simp
  have big: "3 \<le> 2 * pi * ?r"
  proof -
    have "3 * 1 \<le> (2 * pi) * ?r"
      using r pi by (intro mult_mono) simp_all
    then show ?thesis by simp
  qed
  have l2: "1 \<le> ln (2 * pi * ?r)"
    using big by (rule ln_ge_one)
  have f1: "flush (?r * ln ?r) = ?r * ln ?r"
  proof (rule flush_ge_one)
    have "1 * 1 \<le> ?r * ln ?r"
      using r l1 by (intro mult_mono) simp_all
    then show "1 \<le> \<bar>?r * ln ?r\<bar>" by simp
  qed
  have f2: "flush (2 * pi) = 2 * pi"
    using pi by (intro flush_ge_one) simp
  have f3: "flush (2 * pi * ?r) = 2 * pi * ?r"
    using big by (intro flush_ge_one) simp
  have f4: "flush (0.5 * ln (2 * pi * ?r)) = 0.5 * ln (2 * pi * ?r)"
    using l2 by (intro flush_ge_half) simp
  have pos: "0 < 2 * pi * ?r"
    using big by simp
  have "num k * Math_log (num k) = Fin (?r * ln ?r)"
    using r f1 by (simp add: num_def)
  moreover have "Fin 2 * Math_PI * num k = Fin (2 * pi * ?r)"
    by (simp add: num_def Math_PI_def f2 f3)
  moreover have "Fin 0.5 * Math_log (Fin (2 * pi * ?r)) = Fin (0.5 * ln (2 * pi * ?r))"
    by (simp only: Math_log_pos [OF pos] times_number.simps f4)
  ultimately show ?thesis
    by (simp add: num_def)
qed

lemma logFactorial_value:
  "logFactorial k =
     (if k \<le> 1 then Fin 0
      else if k < 20 then Fin (\<Sum>i\<in>{2..k}. ln (real_of_int i))
      else Fin (real_of_int k * ln (real_of_int k) - real_of_int k
                + 0.5 * ln (2 * pi * real_of_int k)))"
proof -
  consider "k \<le> 1" | "1 < k" "k < 20" | "20 \<le> k"
    by linarith
  then show ?thesis
  proof cases
    case 1
    then show ?thesis by (simp add: logFactorial_def)
  next
    case 2
    then show ?thesis
      unfolding logFactorial_def logFactorial_loop by simp
  next
    case 3
    then show ?thesis
      unfolding logFactorial_def using stirling_value [OF 3] by simp
  qed
qed

lemma logFactorial_Fin:
  "\<exists>l. logFactorial k = Fin l \<and> 0 \<le> l \<and>
     (20 \<le> k \<longrightarrow> real_of_int k * ln (real_of_int k) - real_of_int k \<le> l)"
proof -
  consider "k \<le> 1" | "1 < k" "k < 20" | "20 \<le> k"
    by linarith
  then show ?thesis
  proof cases
    case 1
    then show ?thesis by (simp add: logFactorial_value)
  next
    case 2
    have "0 \<le> (\<Sum>i\<in>{2..k}. ln (real_of_int i))"
      by (rule sum_nonneg) simp
    with 2 show ?thesis by (simp add: logFactorial_value)
  next
    case 3
    let ?r = "real_of_int k"
    have r: "20 \<le> ?r" using 3 by simp
    have l1: "1 \<le> ln ?r"
      using r by (intro ln_ge_one) simp
    have "3 * 1 \<le> (2 * pi) * ?r"
      using r pi_ge_two by (intro mult_mono) simp_all
    then have "0 \<le> ln (2 * pi * ?r)"
      by (intro ln_ge_zero) simp
    moreover have "?r * 1 \<le> ?r * ln ?r"
      using r l1 by (intro mult_left_mono) simp_all
    ultimately show ?thesis
      using 3 by (simp add: logFactorial_value)
  qed
qed

lemma poissonProbability_zero_rate_pos: "0 < k \<Longrightarrow> poissonProbability (Fin 0) k = Fin 0"
proof -
  assume "0 < k"
  moreover obtain l where "logFactorial k = Fin l"
    using logFactorial_Fin by blast
  ultimately show ?thesis
    by (simp add: poissonProbability_def signed_inf_def minus_number_def)
qed

lemma poissonProbability_logProb:
  assumes "0 < x" "0 \<le> k" "logFactorial k = Fin l"
  shows "poissonProbability (Fin x) k = Math_exp (Fin (flush (real_of_int k * ln x) - x - l))"
  using assms by (simp add: poissonProbability_def del: Math_exp.simps)

lemma ln_600: "x \<le> 600 \<Longrightarrow> 0 < x \<Longrightarrow> ln x \<le> (37 / 5 :: real)"
proof -
  assume x: "x \<le> 600" "0 < x"
  then have "ln x \<le> ln (2 ^ 10)"
    by simp
  also have "\<dots> = 10 * ln 2"
    using ln_realpow [of 2 10] by simp
  also have "\<dots> \<le> 37 / 5"
    using ln2_upper by simp
  finally show ?thesis .
qed

lemma logProb_le:
  assumes "0 < x" "x \<le> 600" "0 \<le> k" "logFactorial k = Fin l"
  shows "flush (real_of_int k * ln x) - x - l \<le> 200"
proof -
  let ?r = "real_of_int k"
  obtain l' where l': "logFactorial k = Fin l'" "0 \<le> l'"
      "20 \<le> k \<longrightarrow> ?r * ln ?r - ?r \<le> l'"
    using logFactorial_Fin by blast
  with assms(4) have l: "0 \<le> l" "20 \<le> k \<longrightarrow> ?r * ln ?r - ?r \<le> l"
    by simp_all
  show ?thesis
  proof (cases "?r * ln x \<le> 0")
    case True
    then have "flush (?r * ln x) \<le> 0"
      using flush_le_max [of "?r * ln x"] by simp
    then show ?thesis
      using assms(1) l(1) by simp
  next
    case False
    then have pos: "0 < ?r * ln x" by simp
    then have f: "flush (?r * ln x) \<le> ?r * ln x"
      by (intro flush_le) simp
    have r0: "0 < ?r"
      using pos assms(3) by (cases "k = 0") simp_all
    show ?thesis
    proof (cases "k < 20")
      case True
      have "ln x \<le> 37 / 5"
        using assms by (intro ln_600)
      moreover have "0 \<le> ln x"
        using pos r0 by (simp add: zero_less_mult_iff)
      ultimately have "?r * ln x \<le> 19 * (37 / 5)"
        using True by (intro mult_mono) simp_all
      then show ?thesis
        using f assms(1) l(1) by simp
    next
      case False
      then have st: "?r * ln ?r - ?r \<le> l"
        using l(2) by simp
      have "ln (x / ?r) \<le> x / ?r - 1"
        using assms(1) r0 by (intro ln_le_minus_one) simp
      then have "ln x - ln ?r \<le> x / ?r - 1"
        using assms(1) r0 by (simp add: ln_div)
      then have "?r * (ln x - ln ?r) \<le> ?r * (x / ?r - 1)"
        using r0 by (intro mult_left_mono) simp_all
      then have "?r * ln x - ?r * ln ?r \<le> x - ?r"
        using r0 by (simp add: algebra_simps)
      then show ?thesis
        using f st by simp
    qed
  qed
qed

lemma poissonProbability_Fin:
  assumes "0 < x" "x \<le> 600" "0 \<le> k"
  shows "\<exists>p. poissonProbability (Fin x) k = Fin p \<and> 0 \<le> p"
proof -
  obtain l where l: "logFactorial k = Fin l"
    using logFactorial_Fin by blast
  have "flush (real_of_int k * ln x) - x - l \<le> 200"
    using assms l by (rule logProb_le)
  then show ?thesis
    unfolding poissonProbability_logProb [OF assms(1,3) l] by (rule Math_exp_nonneg)
qed

lemma poissonProbability_zero_goals:
  assumes "0 < x" "x \<le> 600"
  shows "poissonProbability (Fin x) 0 = Fin (exp (- x))"
proof -
  have "logFactorial 0 = Fin 0"
    by (simp add: logFactorial_def)
  then have "poissonProbability (Fin x) 0 = Math_exp (Fin (- x))"
    using poissonProbability_logProb [of x 0 0] assms by simp
  then show ?thesis
    using assms by (simp only: Math_exp_in_range)
qed

lemma poissonProbability_one_goal:
  assumes "1 / 2 ^ 52 \<le> y" "y \<le> 600"
  shows "\<exists>q. poissonProbability (Fin y) 1 = Fin q \<and> exp (- 50 - y) \<le> q"
proof -
  have y: "0 < y"
    using assms(1) by (rule less_le_trans [rotated]) simp
  have l: "logFactorial 1 = Fin 0"
    by (simp add: logFactorial_def)
  let ?L = "flush (real_of_int 1 * ln y) - y - 0"
  have up: "?L \<le> 200"
    using y assms(2) l by (intro logProb_le) simp_all
  have "exp (- (real 52 * ln 2)) \<le> y"
    using assms(1) by (simp only: inverse_two_power_exp)
  then have "- (real 52 * ln 2) \<le> ln y"
    using y by (subst ln_ge_iff) simp_all
  then have "- 50 \<le> ln y"
    using ln2_upper by simp
  then have "- 50 \<le> flush (ln y)"
    using flush_ge_min [of "ln y"] by simp
  then have low: "- 50 - y \<le> ?L"
    by simp
  then have "- 700 \<le> ?L"
    using assms(2) by simp
  then have "Math_exp (Fin ?L) = Fin (exp ?L)"
    using up by (rule Math_exp_in_range)
  then have "poissonProbability (Fin y) 1 = Fin (exp ?L)"
    using poissonProbability_logProb [OF y _ l] by simp
  moreover have "exp (- 50 - y) \<le> exp ?L"
    using low by (simp only: exp_le_cancel_iff)
  ultimately show ?thesis by blast
qed

lemma dixonColesTau_Fin:
  "dixonColesTau h a (Fin r) =
     Fin (if h = 0 \<and> a = 0 \<or> h = 1 \<and> a = 1 then 1 - r
          else if h = 0 \<and> a = 1 \<or> h = 1 \<and> a = 0 then 1 + r else 1)"
  unfolding dixonColesTau_def
  by (cases "h = 0"; cases "h = 1"; cases "a = 0"; cases "a = 1") simp_all

lemma dixonColesTau_zero: "dixonColesTau h a (Fin 0) = Fin 1"
  by (simp add: dixonColesTau_Fin)

lemma dixonColesTau_sym: "dixonColesTau h a rho = dixonColesTau a h rho"
  unfolding dixonColesTau_def by (cases "h = 0"; cases "h = 1"; cases "a = 0"; cases "a = 1") simp_all

section \<open>The score matrix as a grid\<close>

lemma int_set_0_1: "{0..1::int} = {0, 1}"
  by auto

lemma grid_nth:
  "0 \<le> h \<Longrightarrow> h \<le> m \<Longrightarrow> 0 \<le> a \<Longrightarrow> a \<le> m \<Longrightarrow>
     map (\<lambda>h. map (F h) [0..m]) [0..m] ! nat h ! nat a = F h a"
  by simp

lemma grid_cong:
  "(\<And>h a. 0 \<le> h \<Longrightarrow> h \<le> m \<Longrightarrow> 0 \<le> a \<Longrightarrow> a \<le> m \<Longrightarrow> F h a = G h a) \<Longrightarrow>
     map (\<lambda>h. map (F h) [0..m]) [0..m] = map (\<lambda>h. map (G h) [0..m]) [0..m]"
  by (intro map_cong refl) simp

lemma sum_list_concat_rows: "sum_list (concat xss) = sum_list (map sum_list xss)"
  for xss :: "'a::monoid_add list list"
  by (induction xss) simp_all

lemma grid_sum:
  "sum_list (concat (map (\<lambda>h. map (F h) [0..m]) [0..m])) = (\<Sum>h\<in>{0..m}. \<Sum>a\<in>{0..m}. F h a)"
  for F :: "int \<Rightarrow> int \<Rightarrow> 'a::comm_monoid_add"
  by (simp add: sum_list_concat_rows comp_def sum_list_upto)

lemma secondPass_firstPass:
  "secondPass (firstPass lh la m) m rho = map (\<lambda>h. map (cellRaw lh la rho h) [0..m]) [0..m]"
  unfolding secondPass_def firstPass_def cellRaw_def Let_def
  by (rule grid_cong) (simp only: grid_nth)

lemma normalize_grid:
  "normalize_matrix (map (\<lambda>h. map (F h) [0..m]) [0..m]) m =
     map (\<lambda>h. map (\<lambda>a. F h a / (\<Sum>h\<in>{0..m}. \<Sum>a\<in>{0..m}. F h a)) [0..m]) [0..m]"
  unfolding normalize_matrix_def Let_def foldl_plus_sum_list Fin_0_add grid_sum
  by (rule grid_cong) (simp only: grid_nth)

lemma calculateScoreMatrix_grid:
  "calculateScoreMatrix lh la (Some m) (Some rho) =
     map (\<lambda>h. map (\<lambda>a. cellRaw lh la rho h a / gridTotal lh la m rho) [0..m]) [0..m]"
  by (simp add: calculateScoreMatrix_def secondPass_firstPass normalize_grid gridTotal_def)

lemma calculateScoreMatrix_defaults:
  "calculateScoreMatrix lh la None r = calculateScoreMatrix lh la (Some 10) r"
  "calculateScoreMatrix lh la mg None = calculateScoreMatrix lh la mg (Some (Fin (- 0.13)))"
  by (simp_all add: calculateScoreMatrix_def)

lemma length_calculateScoreMatrix:
  "length (calculateScoreMatrix lh la (Some m) (Some rho)) = nat (m + 1)"
  by (simp add: calculateScoreMatrix_grid)

lemma calculateScoreMatrix_nth:
  "0 \<le> h \<Longrightarrow> h \<le> m \<Longrightarrow> 0 \<le> a \<Longrightarrow> a \<le> m \<Longrightarrow>
     calculateScoreMatrix lh la (Some m) (Some rho) ! nat h ! nat a =
       cellRaw lh la rho h a / gridTotal lh la m rho"
  unfolding calculateScoreMatrix_grid by (rule grid_nth)

lemma calculateScoreMatrix_sum:
  "sum_list (concat (calculateScoreMatrix lh la (Some m) (Some rho))) =
     (\<Sum>h\<in>{0..m}. \<Sum>a\<in>{0..m}. cellRaw lh la rho h a / gridTotal lh la m rho)"
  unfolding calculateScoreMatrix_grid by (rule grid_sum)

lemma grid_reread:
  "map (\<lambda>h. map (\<lambda>a. map (\<lambda>h. map (F h) [0..m]) [0..m] ! nat h ! nat a) [0..m]) [0..m] =
     map (\<lambda>h. map (F h) [0..m]) [0..m]"
  by (rule grid_cong) (simp only: grid_nth)

lemma times_number_commute: "x * y = y * (x :: number)"
  by (cases x; cases y) (simp_all add: mult.commute)

lemma cellRaw_swap: "cellRaw lh la rho h a = cellRaw la lh rho a h"
  unfolding cellRaw_def
  by (subst times_number_commute [of "poissonProbability lh h"], subst dixonColesTau_sym [of h a], rule refl)

lemma transpose_grid:
  "transpose (map (\<lambda>h. map (F h) [0..m]) [0..m]) = map (\<lambda>a. map (\<lambda>h. F h a) [0..m]) [0..m]"
proof (cases "0 \<le> m")
  case False
  then show ?thesis by simp
next
  case True
  let ?G = "map (\<lambda>h. map (F h) [0..m]) [0..m]"
  have len: "length ?G = nat (m + 1)" by simp
  have rect: "length (?G ! i) = nat (m + 1)" if "i < length ?G" for i
    using that by simp
  have "transpose ?G = map (\<lambda>i. map (\<lambda>j. ?G ! j ! i) [0..<length ?G]) [0..<nat (m + 1)]"
    using True by (intro transpose_rectangle rect) simp_all
  also have "\<dots> = map (\<lambda>i. map (\<lambda>j. F (int j) (int i)) [0..<nat (m + 1)]) [0..<nat (m + 1)]"
    unfolding len by (intro map_cong refl) simp
  also have "\<dots> = map (\<lambda>a. map (\<lambda>h. F h a) [0..m]) [0..m]"
  proof -
    have *: "map (\<lambda>j. f (int j)) [0..<nat (m + 1)] = map f [0..m]" for f :: "int \<Rightarrow> 'b"
      by (rule nth_equalityI) simp_all
    show ?thesis
      by (simp only: * [of "\<lambda>h. F h (int _)"] * [of "\<lambda>a. map (\<lambda>h. F h a) [0..m]"])
  qed
  finally show ?thesis .
qed

text \<open>
  Swapping the two rates transposes the grid of corrected products, cell by cell: the
  product of two numbers does not depend on their order and the correction factor is
  symmetric. The two normalized grids divide these cells by totals that add them in
  different orders, row by row in one and column by column in the other.
\<close>

lemma secondPass_transpose:
  "transpose (secondPass (firstPass la lb m) m rho) = secondPass (firstPass lb la m) m rho"
  unfolding secondPass_firstPass transpose_grid
  by (subst cellRaw_swap [of la lb]) (rule refl)

section \<open>Normalization for rates in range\<close>

lemma flush_big: "exp (- 700) \<le> z \<Longrightarrow> flush z = z"
proof (rule flush_id)
  assume "exp (- 700) \<le> z"
  then show "underflow_bound < \<bar>z\<bar>"
    using exp_above_underflow [of "- 700"] by simp
qed

lemma cellRaw_value:
  assumes "poissonProbability lh h = Fin p" "poissonProbability la a = Fin q"
  shows "cellRaw lh la (Fin r) h a = Fin (flush (flush (p * q) * fin_val (dixonColesTau h a (Fin r))))"
  by (simp add: cellRaw_def assms dixonColesTau_Fin)

lemma cellRaw_nonneg:
  assumes "0 < x" "x \<le> 600" "0 < y" "y \<le> 600" "0 \<le> h" "0 \<le> a" "- 1 \<le> r" "r \<le> 1"
  shows "cellRaw (Fin x) (Fin y) (Fin r) h a = Fin (fin_val (cellRaw (Fin x) (Fin y) (Fin r) h a))"
    and "0 \<le> fin_val (cellRaw (Fin x) (Fin y) (Fin r) h a)"
proof -
  obtain p q where pq: "poissonProbability (Fin x) h = Fin p" "0 \<le> p"
      "poissonProbability (Fin y) a = Fin q" "0 \<le> q"
    using poissonProbability_Fin assms(1-6) by blast
  have t: "0 \<le> fin_val (dixonColesTau h a (Fin r))"
    using assms(7,8) by (simp add: dixonColesTau_Fin)
  have c: "cellRaw (Fin x) (Fin y) (Fin r) h a =
             Fin (flush (flush (p * q) * fin_val (dixonColesTau h a (Fin r))))"
    using pq(1,3) by (rule cellRaw_value)
  show "cellRaw (Fin x) (Fin y) (Fin r) h a = Fin (fin_val (cellRaw (Fin x) (Fin y) (Fin r) h a))"
    by (simp add: c)
  have "0 \<le> flush (p * q)"
    using pq(2,4) by (intro flush_nonneg) simp
  then have "0 \<le> flush (flush (p * q) * fin_val (dixonColesTau h a (Fin r)))"
    using t by (intro flush_nonneg) simp
  then show "0 \<le> fin_val (cellRaw (Fin x) (Fin y) (Fin r) h a)"
    by (simp add: c)
qed

lemma cell_0_0_pos:
  assumes "0 < x" "0 < y" "x + y \<le> 600" "r \<le> 1 - 1 / 2 ^ 53"
  shows "0 < fin_val (cellRaw (Fin x) (Fin y) (Fin r) 0 0)"
proof -
  have p: "poissonProbability (Fin x) 0 = Fin (exp (- x))"
    and q: "poissonProbability (Fin y) 0 = Fin (exp (- y))"
    using assms by (simp_all add: poissonProbability_zero_goals)
  have pq: "exp (- x) * exp (- y) = exp (- (x + y))"
    by (simp add: exp_add [symmetric])
  have f1: "flush (exp (- x) * exp (- y)) = exp (- (x + y))"
    unfolding pq using assms(3) by (intro flush_big) simp
  have "exp (- (real 53 * ln 2)) \<le> 1 - r"
    using assms(4) by (simp only: inverse_two_power_exp [symmetric])
  moreover have "exp (- 40) \<le> exp (- (real 53 * ln 2))"
    using ln2_upper by simp
  ultimately have t: "exp (- 40) \<le> 1 - r"
    by (rule order_trans [rotated])
  have "exp (- 700) \<le> exp (- (x + y)) * exp (- 40)"
    using assms(3) by (simp add: exp_add [symmetric])
  also have "\<dots> \<le> exp (- (x + y)) * (1 - r)"
    using t by (intro mult_left_mono) simp_all
  finally have big: "exp (- 700) \<le> exp (- (x + y)) * (1 - r)" .
  then have "flush (exp (- (x + y)) * (1 - r)) = exp (- (x + y)) * (1 - r)"
    by (rule flush_big)
  moreover have "0 < exp (- (x + y)) * (1 - r)"
    using big by (rule less_le_trans [rotated]) simp
  ultimately show ?thesis
    by (simp add: cellRaw_value [OF p q] f1 dixonColesTau_Fin)
qed

lemma cell_0_1_pos:
  assumes "0 < x" "x + y \<le> 600" "1 / 2 ^ 52 \<le> y" "0 \<le> r"
  shows "0 < fin_val (cellRaw (Fin x) (Fin y) (Fin r) 0 1)"
proof -
  have y: "0 < y"
    using assms(3) by (rule less_le_trans [rotated]) simp
  have p: "poissonProbability (Fin x) 0 = Fin (exp (- x))"
    using assms y by (intro poissonProbability_zero_goals) simp_all
  obtain q where q: "poissonProbability (Fin y) 1 = Fin q" "exp (- 50 - y) \<le> q"
    using poissonProbability_one_goal [of y] assms by auto
  have "exp (- 700) \<le> exp (- x) * exp (- 50 - y)"
    using assms(2) by (simp add: exp_add [symmetric])
  also have "\<dots> \<le> exp (- x) * q"
    using q(2) by (intro mult_left_mono) simp_all
  finally have big: "exp (- 700) \<le> exp (- x) * q" .
  then have f1: "flush (exp (- x) * q) = exp (- x) * q"
    by (rule flush_big)
  have pos: "0 < exp (- x) * q"
    using big by (rule less_le_trans [rotated]) simp
  have "exp (- x) * q \<le> exp (- x) * q * (1 + r)"
    using mult_left_mono [of 1 "1 + r" "exp (- x) * q"] pos assms(4) by simp
  with big have big2: "exp (- 700) \<le> exp (- x) * q * (1 + r)"
    by (rule order_trans)
  then have "flush (exp (- x) * q * (1 + r)) = exp (- x) * q * (1 + r)"
    by (rule flush_big)
  moreover have "0 < exp (- x) * q * (1 + r)"
    using big2 by (rule less_le_trans [rotated]) simp
  ultimately show ?thesis
    by (simp add: cellRaw_value [OF p q(1)] f1 dixonColesTau_Fin)
qed

lemma cell_1_0_pos:
  assumes "0 < y" "x + y \<le> 600" "1 / 2 ^ 52 \<le> x" "0 \<le> r"
  shows "0 < fin_val (cellRaw (Fin x) (Fin y) (Fin r) 1 0)"
proof -
  have "0 < fin_val (cellRaw (Fin y) (Fin x) (Fin r) 0 1)"
    using assms by (intro cell_0_1_pos) simp_all
  then show ?thesis
    by (simp only: cellRaw_swap [of "Fin x" "Fin y"])
qed

text \<open>
  Some cell of the grid is positive: the cell \<open>(0, 0)\<close> when \<open>\<rho>\<close> is below 1, and else
  the cell \<open>(0, 1)\<close> or \<open>(1, 0)\<close>.
\<close>

lemma some_cell_pos:
  assumes "0 < x" "0 < y" "x + y \<le> 600" "0 \<le> m" "r \<le> 1"
    and "r \<le> 1 - 1 / 2 ^ 53 \<or> 0 < m \<and> (1 / 2 ^ 52 \<le> x \<or> 1 / 2 ^ 52 \<le> y)"
  shows "\<exists>h a. 0 \<le> h \<and> h \<le> m \<and> 0 \<le> a \<and> a \<le> m \<and>
           0 < fin_val (cellRaw (Fin x) (Fin y) (Fin r) h a)"
proof (cases "r \<le> 1 - 1 / 2 ^ 53")
  case True
  then have "0 < fin_val (cellRaw (Fin x) (Fin y) (Fin r) 0 0)"
    using assms(1-3) by (intro cell_0_0_pos)
  then show ?thesis
    using assms(4) by (intro exI [of _ 0]) simp
next
  case False
  then have r: "0 \<le> r"
    by simp
  from False assms(6) have m: "0 < m" and xy: "1 / 2 ^ 52 \<le> x \<or> 1 / 2 ^ 52 \<le> y"
    by simp_all
  from xy show ?thesis
  proof
    assume "1 / 2 ^ 52 \<le> y"
    then have "0 < fin_val (cellRaw (Fin x) (Fin y) (Fin r) 0 1)"
      using assms(1,3) r by (intro cell_0_1_pos)
    then show ?thesis
      using m by (intro exI [of _ 0] exI [of _ 1]) simp
  next
    assume "1 / 2 ^ 52 \<le> x"
    then have "0 < fin_val (cellRaw (Fin x) (Fin y) (Fin r) 1 0)"
      using assms(2,3) r by (intro cell_1_0_pos)
    then show ?thesis
      using m by (intro exI [of _ 1] exI [of _ 0]) simp
  qed
qed

lemma gridTotal_Fin:
  assumes "0 < x" "0 < y" "x + y \<le> 600" "- 1 \<le> r" "r \<le> 1"
  shows "gridTotal (Fin x) (Fin y) m (Fin r) =
           Fin (\<Sum>h\<in>{0..m}. \<Sum>a\<in>{0..m}. fin_val (cellRaw (Fin x) (Fin y) (Fin r) h a))"
proof -
  have "gridTotal (Fin x) (Fin y) m (Fin r) =
          (\<Sum>h\<in>{0..m}. \<Sum>a\<in>{0..m}. Fin (fin_val (cellRaw (Fin x) (Fin y) (Fin r) h a)))"
    unfolding gridTotal_def
    using assms by (intro sum.cong refl cellRaw_nonneg(1)) simp_all
  then show ?thesis by (simp add: sum_Fin)
qed

lemma gridTotal_pos:
  assumes "0 < x" "0 < y" "x + y \<le> 600" "0 \<le> m" "- 1 \<le> r" "r \<le> 1"
    and "r \<le> 1 - 1 / 2 ^ 53 \<or> 0 < m \<and> (1 / 2 ^ 52 \<le> x \<or> 1 / 2 ^ 52 \<le> y)"
  shows "0 < (\<Sum>h\<in>{0..m}. \<Sum>a\<in>{0..m}. fin_val (cellRaw (Fin x) (Fin y) (Fin r) h a))"
proof -
  let ?c = "\<lambda>h a. fin_val (cellRaw (Fin x) (Fin y) (Fin r) h a)"
  have nonneg: "0 \<le> ?c h a" if "0 \<le> h" "0 \<le> a" for h a
    using assms(1-3,5,6) that by (intro cellRaw_nonneg(2)) simp_all
  have row: "0 \<le> (\<Sum>a\<in>{0..m}. ?c h a)" if "0 \<le> h" for h
    using that by (intro sum_nonneg nonneg) simp_all
  obtain h a where ha: "0 \<le> h" "h \<le> m" "0 \<le> a" "a \<le> m" "0 < ?c h a"
    using some_cell_pos [OF assms(1-4,6,7)] by blast
  have inner: "0 < (\<Sum>a\<in>{0..m}. ?c h a)"
    using ha by (intro sum_pos2 [of _ a] nonneg) simp_all
  show ?thesis
  proof (rule sum_pos2 [of _ h])
    show "finite {0..m}" by simp
    show "h \<in> {0..m}" using ha by simp
    show "0 < (\<Sum>a\<in>{0..m}. ?c h a)" by (rule inner)
    show "0 \<le> (\<Sum>a\<in>{0..m}. ?c i a)" if "i \<in> {0..m}" for i
      using that by (intro row) simp
  qed
qed

lemma cell_le_total:
  assumes "0 < x" "0 < y" "x + y \<le> 600" "- 1 \<le> r" "r \<le> 1"
    and "0 \<le> h" "h \<le> m" "0 \<le> a" "a \<le> m"
  shows "fin_val (cellRaw (Fin x) (Fin y) (Fin r) h a)
           \<le> (\<Sum>h\<in>{0..m}. \<Sum>a\<in>{0..m}. fin_val (cellRaw (Fin x) (Fin y) (Fin r) h a))"
proof -
  let ?c = "\<lambda>h a. fin_val (cellRaw (Fin x) (Fin y) (Fin r) h a)"
  have nonneg: "0 \<le> ?c h a" if "0 \<le> h" "0 \<le> a" for h a
    using assms(1-5) that by (intro cellRaw_nonneg(2)) simp_all
  have "?c h a \<le> (\<Sum>a\<in>{0..m}. ?c h a)"
    using assms by (intro member_le_sum nonneg) simp_all
  also have "\<dots> \<le> (\<Sum>h\<in>{0..m}. \<Sum>a\<in>{0..m}. ?c h a)"
    using assms by (intro member_le_sum [of h _ "\<lambda>h. \<Sum>a\<in>{0..m}. ?c h a"] sum_nonneg nonneg) simp_all
  finally show ?thesis .
qed

lemma scoreMatrix_cells:
  assumes "0 < x" "0 < y" "x + y \<le> 600" "0 \<le> m" "- 1 \<le> r" "r \<le> 1"
    and "r \<le> 1 - 1 / 2 ^ 53 \<or> 0 < m \<and> (1 / 2 ^ 52 \<le> x \<or> 1 / 2 ^ 52 \<le> y)"
    and "0 \<le> h" "h \<le> m" "0 \<le> a" "a \<le> m"
  shows "\<exists>p. calculateScoreMatrix (Fin x) (Fin y) (Some m) (Some (Fin r)) ! nat h ! nat a = Fin p
            \<and> 0 \<le> p \<and> p \<le> 1"
proof -
  let ?c = "\<lambda>h a. fin_val (cellRaw (Fin x) (Fin y) (Fin r) h a)"
  let ?T = "\<Sum>h\<in>{0..m}. \<Sum>a\<in>{0..m}. ?c h a"
  have T: "0 < ?T" using assms(1-7) by (rule gridTotal_pos)
  have c: "cellRaw (Fin x) (Fin y) (Fin r) h a = Fin (?c h a)" "0 \<le> ?c h a"
    using assms(1-3,5,6,8,10) by (intro cellRaw_nonneg; simp)+
  have le: "?c h a \<le> ?T"
    using assms by (intro cell_le_total) simp_all
  have "calculateScoreMatrix (Fin x) (Fin y) (Some m) (Some (Fin r)) ! nat h ! nat a = Fin (?c h a) / Fin ?T"
    using assms(8-11) gridTotal_Fin [OF assms(1-3,5,6), of m] c(1)
    by (simp only: calculateScoreMatrix_nth)
  also have "\<dots> = Fin (?c h a / ?T)"
    using T by simp
  finally show ?thesis
    using T c(2) le by simp
qed

lemma scoreMatrix_total:
  assumes "0 < x" "0 < y" "x + y \<le> 600" "0 \<le> m" "- 1 \<le> r" "r \<le> 1"
    and "r \<le> 1 - 1 / 2 ^ 53 \<or> 0 < m \<and> (1 / 2 ^ 52 \<le> x \<or> 1 / 2 ^ 52 \<le> y)"
  shows "sum_list (concat (calculateScoreMatrix (Fin x) (Fin y) (Some m) (Some (Fin r)))) = Fin 1"
proof -
  let ?c = "\<lambda>h a. fin_val (cellRaw (Fin x) (Fin y) (Fin r) h a)"
  let ?T = "\<Sum>h\<in>{0..m}. \<Sum>a\<in>{0..m}. ?c h a"
  have T: "0 < ?T" using assms(1-7) by (rule gridTotal_pos)
  have cell: "cellRaw (Fin x) (Fin y) (Fin r) h a / gridTotal (Fin x) (Fin y) m (Fin r) = Fin (?c h a / ?T)"
    if "h \<in> {0..m}" "a \<in> {0..m}" for h a
  proof -
    have eq: "cellRaw (Fin x) (Fin y) (Fin r) h a = Fin (?c h a)"
      using assms that by (intro cellRaw_nonneg(1)) simp_all
    show ?thesis
      unfolding gridTotal_Fin [OF assms(1-3,5,6)] by (subst eq) (use T in simp)
  qed
  have "sum_list (concat (calculateScoreMatrix (Fin x) (Fin y) (Some m) (Some (Fin r)))) =
          (\<Sum>h\<in>{0..m}. \<Sum>a\<in>{0..m}. Fin (?c h a / ?T))"
    unfolding calculateScoreMatrix_sum by (intro sum.cong refl cell)
  also have "\<dots> = Fin ((\<Sum>h\<in>{0..m}. \<Sum>a\<in>{0..m}. ?c h a) / ?T)"
    by (simp only: sum_Fin finite_atLeastAtMost_int sum_divide_distrib)
  also have "\<dots> = Fin 1"
    using T by simp
  finally show ?thesis .
qed

section \<open>The loop of the aggregator\<close>

lemma over_threshold: "(Fin 2.5 < num (h + a)) = (3 \<le> h + a)"
  by (simp add: num_def) linarith

lemma over_threshold_real: "(2.5 < real_of_int (h + a)) = (3 \<le> h + a)"
  by linarith

lemma tally_field:
  assumes step: "\<And>h a t. g (tallyCell M h a t) = (if P h a then g t + M ! nat h ! nat a else g t)"
  shows "g (tallyMatrix M m t) =
           g t + sum_list (concat (map (\<lambda>h. map (\<lambda>a. M ! nat h ! nat a) (filter (P h) [0..m])) [0..m]))"
proof -
  have row: "g (foldl (\<lambda>t a. tallyCell M h a t) t as) =
               g t + sum_list (map (\<lambda>a. M ! nat h ! nat a) (filter (P h) as))" for h t as
    by (induction as arbitrary: t) (simp_all add: step add.assoc)
  have "g (foldl (\<lambda>t h. tallyRow M m h t) t hs) =
          g t + sum_list (concat (map (\<lambda>h. map (\<lambda>a. M ! nat h ! nat a) (filter (P h) [0..m])) hs))" for hs t
    by (induction hs arbitrary: t) (simp_all add: tallyRow_def row add.assoc)
  then show ?thesis
    by (simp add: tallyMatrix_def)
qed

lemma tallyCell_accHome:
  "accHome (tallyCell M h a t) = (if a < h then accHome t + M ! nat h ! nat a else accHome t)"
  by (simp add: tallyCell_def Let_def)

lemma tallyCell_accDraw:
  "accDraw (tallyCell M h a t) = (if h = a then accDraw t + M ! nat h ! nat a else accDraw t)"
  by (cases "h = a") (simp_all add: tallyCell_def Let_def)

lemma tallyCell_accAway:
  "accAway (tallyCell M h a t) = (if h < a then accAway t + M ! nat h ! nat a else accAway t)"
  by (simp add: tallyCell_def Let_def)

lemma tallyCell_accOver2_5:
  "accOver2_5 (tallyCell M h a t) = (if 3 \<le> h + a then accOver2_5 t + M ! nat h ! nat a else accOver2_5 t)"
  by (simp add: tallyCell_def Let_def over_threshold)

lemma tallyCell_accBTTS:
  "accBTTS (tallyCell M h a t) = (if 0 < h \<and> 0 < a then accBTTS t + M ! nat h ! nat a else accBTTS t)"
  by (simp add: tallyCell_def Let_def)

lemma tallyCell_result:
  "accHome (tallyCell M h a t) + accDraw (tallyCell M h a t) + accAway (tallyCell M h a t) =
     (if True then accHome t + accDraw t + accAway t + M ! nat h ! nat a
      else accHome t + accDraw t + accAway t)"
  by (simp add: tallyCell_accHome tallyCell_accDraw tallyCell_accAway ac_simps)

lemmas tally_fields =
  tally_field [of accHome, OF tallyCell_accHome]
  tally_field [of accDraw, OF tallyCell_accDraw]
  tally_field [of accAway, OF tallyCell_accAway]
  tally_field [of accOver2_5, OF tallyCell_accOver2_5]
  tally_field [of accBTTS, OF tallyCell_accBTTS]

lemma predictMatch_fields:
  "predictMatch lh la =
     (let M = calculateScoreMatrix lh la None None in
      \<lparr>probHome = sumCells (\<lambda>h a. a < h) M,
       probDraw = sumCells (\<lambda>h a. h = a) M,
       probAway = sumCells (\<lambda>h a. h < a) M,
       xgHome = lh, xgAway = la, prob0_0 = M ! 0 ! 0,
       probOver2_5 = sumCells (\<lambda>h a. 3 \<le> h + a) M,
       probBTTS = sumCells (\<lambda>h a. 0 < h \<and> 0 < a) M\<rparr>)"
  by (simp add: predictMatch_def Let_def tally_fields sumCells_def)

lemma predictMatch_result_sum:
  "probHome (predictMatch lh la) + probDraw (predictMatch lh la) + probAway (predictMatch lh la) =
     sum_list (concat (calculateScoreMatrix lh la (Some 10) (Some (Fin (- 0.13)))))"
proof -
  let ?M = "calculateScoreMatrix lh la (Some 10) (Some (Fin (- 0.13)))"
  let ?t0 = "\<lparr>accHome = Fin 0, accDraw = Fin 0, accAway = Fin 0, accOver2_5 = Fin 0, accBTTS = Fin 0\<rparr>"
  let ?t = "tallyMatrix ?M 10 ?t0"
  have len: "int (length ?M) - 1 = 10"
    by (simp add: length_calculateScoreMatrix)
  have "accHome ?t + accDraw ?t + accAway ?t =
          sum_list (concat (map (\<lambda>h. map (\<lambda>a. ?M ! nat h ! nat a) [0..10]) [0..10]))"
    by (subst tally_field [of "\<lambda>t. accHome t + accDraw t + accAway t", OF tallyCell_result]) simp
  also have "\<dots> = sum_list (concat ?M)"
    unfolding calculateScoreMatrix_grid grid_reread ..
  finally have "accHome ?t + accDraw ?t + accAway ?t = sum_list (concat ?M)" .
  then show ?thesis
    unfolding predictMatch_def Let_def calculateScoreMatrix_defaults len by simp
qed

lemma sumCells_NaN:
  assumes "0 \<le> h" "h < int (length M)" "0 \<le> a" "a < int (length M)" "P h a"
    and "M ! nat h ! nat a = NaN"
  shows "sumCells P M = NaN"
  unfolding sumCells_def
proof (rule NaN_in_sum_list)
  let ?n = "int (length M) - 1"
  have "M ! nat h ! nat a \<in> set (map (\<lambda>away. M ! nat h ! nat away) (filter (P h) [0..?n]))"
    using assms(3-5) by auto
  moreover have "map (\<lambda>away. M ! nat h ! nat away) (filter (P h) [0..?n]) \<in>
      set (map (\<lambda>home. map (\<lambda>away. M ! nat home ! nat away) (filter (P home) [0..?n])) [0..?n])"
    using assms(1,2) by auto
  ultimately show "NaN \<in> set (concat (map (\<lambda>home. map (\<lambda>away. M ! nat home ! nat away)
      (filter (P home) [0..?n])) [0..?n]))"
    unfolding assms(6) [symmetric] set_concat by blast
qed

section \<open>Concrete values\<close>

lemma upto_0_0: "[0..0::int] = [0]"
  by (simp add: upto.simps)

lemma upto_0_1: "[0..1::int] = [0, 1]"
  by (simp add: upto.simps)

lemma times_scaled_exp:
  assumes "1 \<le> \<bar>s * t\<bar>" "- 700 \<le> a + b"
  shows "Fin (s * exp a) * Fin (t * exp b) = Fin (s * t * exp (a + b))"
proof -
  have eq: "s * exp a * (t * exp b) = exp (a + b) * (s * t)"
    by (simp add: exp_add)
  have "flush (exp (a + b) * (s * t)) = exp (a + b) * (s * t)"
    using assms(2,1) by (rule flush_exp)
  then have "flush (s * exp a * (t * exp b)) = s * t * exp (a + b)"
    unfolding eq by (simp only: mult.commute)
  then show ?thesis
    by (simp only: times_number.simps)
qed

lemma poisson_one_zero: "poissonProbability (Fin 1) 0 = Fin (exp (- 1))"
  by (rule poissonProbability_zero_goals) simp_all

lemma poisson_one_one: "poissonProbability (Fin 1) 1 = Fin (exp (- 1))"
proof -
  have "logFactorial 1 = Fin 0"
    by (simp add: logFactorial_def)
  then have "poissonProbability (Fin 1) 1 = Math_exp (Fin (flush (real_of_int 1 * ln 1) - 1 - 0))"
    by (intro poissonProbability_logProb) simp_all
  also have "\<dots> = Math_exp (Fin (- 1))"
    by simp
  also have "\<dots> = Fin (exp (- 1))"
    by (rule Math_exp_in_range) simp_all
  finally show ?thesis .
qed

lemma poisson_two_zero: "poissonProbability (Fin 2) 0 = Fin (exp (- 2))"
  by (rule poissonProbability_zero_goals) simp_all

lemma poisson_two_one: "poissonProbability (Fin 2) 1 = Fin (2 * exp (- 2))"
proof -
  have "logFactorial 1 = Fin 0"
    by (simp add: logFactorial_def)
  then have "poissonProbability (Fin 2) 1 = Math_exp (Fin (flush (real_of_int 1 * ln 2) - 2 - 0))"
    by (intro poissonProbability_logProb) simp_all
  also have "flush (real_of_int 1 * ln 2) = ln 2"
    using ln2_lower by (simp add: flush_ge_half)
  also have "Math_exp (Fin (ln 2 - 2 - 0)) = Fin (exp (ln 2 - 2))"
    using ln2_lower ln2_upper by (subst Math_exp_in_range) simp_all
  also have "exp (ln 2 - 2) = 2 * exp (- 2 :: real)"
    by (simp add: exp_diff exp_minus field_simps)
  finally show ?thesis .
qed

lemma poisson_400_zero: "poissonProbability (Fin 400) 0 = Fin (exp (- 400))"
  by (rule poissonProbability_zero_goals) simp_all

lemma times_exp_400: "Fin (exp (- 400)) * Fin (exp (- 400)) = Fin 0"
proof -
  have "exp (- 400) * exp (- 400) = exp (- 800 :: real)"
    by (simp flip: exp_add)
  moreover have "exp (- 800 :: real) \<le> underflow_bound"
    by (rule exp_underflows) simp
  ultimately show ?thesis
    by (simp add: flush_def)
qed

lemma ln_1000: "ln (1000 :: real) \<le> 37 / 5"
proof -
  have "ln (1000 :: real) \<le> ln (2 ^ 10)"
    by simp
  also have "\<dots> = 10 * ln 2"
    using ln_realpow [of 2 10] by simp
  also have "\<dots> \<le> 37 / 5"
    using ln2_upper by simp
  finally show ?thesis .
qed

lemma poisson_1000: 
  assumes "0 \<le> k" "k \<le> 10"
  shows "poissonProbability (Fin 1000) k = Fin 0"
proof -
  let ?r = "real_of_int k"
  obtain l where l: "logFactorial k = Fin l" "0 \<le> l"
    using logFactorial_Fin by blast
  have "?r * ln 1000 \<le> 10 * (37 / 5)"
    using assms ln_1000 by (intro mult_mono) simp_all
  then have "max (?r * ln 1000) 0 \<le> 74"
    by simp
  then have "flush (?r * ln 1000) \<le> 74"
    by (rule order_trans [OF flush_le_max])
  then have "flush (?r * ln 1000) - 1000 - l \<le> - 796"
    using l(2) by simp
  then have "Math_exp (Fin (flush (?r * ln 1000) - 1000 - l)) = Fin 0"
    by (rule Math_exp_underflow)
  then show ?thesis
    using assms(1) l(1) by (subst poissonProbability_logProb [of 1000 k l]) simp_all
qed

lemma cellRaw_1000:
  assumes "0 \<le> h" "h \<le> 10" "0 \<le> a" "a \<le> 10"
  shows "cellRaw (Fin 1000) (Fin 1000) (Fin r) h a = Fin 0"
  using assms by (simp add: cellRaw_def poisson_1000 dixonColesTau_Fin)

lemma gridTotal_1000: "gridTotal (Fin 1000) (Fin 1000) 10 (Fin r) = Fin 0"
proof -
  have "gridTotal (Fin 1000) (Fin 1000) 10 (Fin r) = (\<Sum>h\<in>{0..10::int}. \<Sum>a\<in>{0..10::int}. Fin 0)"
    unfolding gridTotal_def by (intro sum.cong refl cellRaw_1000) simp_all
  then show ?thesis
    by (simp add: sum_Fin)
qed

lemma scoreMatrix_1000:
  assumes "0 \<le> h" "h \<le> 10" "0 \<le> a" "a \<le> 10"
  shows "calculateScoreMatrix (Fin 1000) (Fin 1000) None None ! nat h ! nat a = NaN"
  using assms
  by (simp add: calculateScoreMatrix_defaults calculateScoreMatrix_nth cellRaw_1000 gridTotal_1000
      signed_inf_def)

lemma length_scoreMatrix_default: "length (calculateScoreMatrix lh la None None) = 11"
  by (simp add: calculateScoreMatrix_defaults length_calculateScoreMatrix)

lemma times_exp: "- 700 \<le> a + b \<Longrightarrow> Fin (exp a) * Fin (exp b) = Fin (exp (a + b))"
  using times_scaled_exp [of 1 1 a b] by simp

lemma cellRaw_scaled:
  assumes "poissonProbability lh h = Fin (s * exp a)" "poissonProbability la k = Fin (t * exp b)"
    and "dixonColesTau h k rho = Fin u" "1 \<le> \<bar>s * t\<bar>" "1 \<le> \<bar>s * t * u\<bar>" "- 700 \<le> a + b"
  shows "cellRaw lh la rho h k = Fin (s * t * u * exp (a + b))"
proof -
  have "Fin (s * t * exp (a + b)) * Fin (u * exp 0) = Fin (s * t * u * exp (a + b + 0))"
    using assms(5,6) by (intro times_scaled_exp) simp_all
  then show ?thesis
    unfolding cellRaw_def assms(1-3) times_scaled_exp [OF assms(4,6)] by simp
qed

lemma cellRaw_one_rho_2:
  "cellRaw (Fin 1) (Fin 1) (Fin 2) 0 0 = Fin (- exp (- 2))"
  "cellRaw (Fin 1) (Fin 1) (Fin 2) 0 1 = Fin (3 * exp (- 2))"
  "cellRaw (Fin 1) (Fin 1) (Fin 2) 1 0 = Fin (3 * exp (- 2))"
  "cellRaw (Fin 1) (Fin 1) (Fin 2) 1 1 = Fin (- exp (- 2))"
proof -
  have "cellRaw (Fin 1) (Fin 1) (Fin 2) 0 0 = Fin (1 * 1 * (- 1) * exp (- 1 + - 1))"
    by (rule cellRaw_scaled) (simp_all add: poisson_one_zero dixonColesTau_Fin)
  then show "cellRaw (Fin 1) (Fin 1) (Fin 2) 0 0 = Fin (- exp (- 2))"
    by simp
  have "cellRaw (Fin 1) (Fin 1) (Fin 2) 0 1 = Fin (1 * 1 * 3 * exp (- 1 + - 1))"
    by (rule cellRaw_scaled) (simp_all add: poisson_one_zero poisson_one_one dixonColesTau_Fin)
  then show "cellRaw (Fin 1) (Fin 1) (Fin 2) 0 1 = Fin (3 * exp (- 2))"
    by simp
  have "cellRaw (Fin 1) (Fin 1) (Fin 2) 1 0 = Fin (1 * 1 * 3 * exp (- 1 + - 1))"
    by (rule cellRaw_scaled) (simp_all add: poisson_one_zero poisson_one_one dixonColesTau_Fin)
  then show "cellRaw (Fin 1) (Fin 1) (Fin 2) 1 0 = Fin (3 * exp (- 2))"
    by simp
  have "cellRaw (Fin 1) (Fin 1) (Fin 2) 1 1 = Fin (1 * 1 * (- 1) * exp (- 1 + - 1))"
    by (rule cellRaw_scaled) (simp_all add: poisson_one_one dixonColesTau_Fin)
  then show "cellRaw (Fin 1) (Fin 1) (Fin 2) 1 1 = Fin (- exp (- 2))"
    by simp
qed

lemma scoreMatrix_one_rho_2:
  "calculateScoreMatrix (Fin 1) (Fin 1) (Some 1) (Some (Fin 2)) ! 0 ! 0 = Fin (- (1 / 4))"
proof -
  have "calculateScoreMatrix (Fin 1) (Fin 1) (Some 1) (Some (Fin 2)) ! nat 0 ! nat 0 =
          cellRaw (Fin 1) (Fin 1) (Fin 2) 0 0 / gridTotal (Fin 1) (Fin 1) 1 (Fin 2)"
    by (rule calculateScoreMatrix_nth) simp_all
  moreover have "gridTotal (Fin 1) (Fin 1) 1 (Fin 2) = Fin (4 * exp (- 2))"
    by (simp add: gridTotal_def int_set_0_1 cellRaw_one_rho_2)
  ultimately show ?thesis
    by (simp add: cellRaw_one_rho_2)
qed

lemma scoreMatrix_one_rho_1:
  "calculateScoreMatrix (Fin 1) (Fin 1) (Some 0) (Some (Fin 1)) = [[NaN]]"
proof -
  have "cellRaw (Fin 1) (Fin 1) (Fin 1) 0 0 = Fin 0"
    by (simp add: cellRaw_def poisson_one_zero dixonColesTau_Fin)
  then show ?thesis
    by (simp add: calculateScoreMatrix_grid upto_0_0 gridTotal_def signed_inf_def)
qed

lemma scoreMatrix_400:
  "calculateScoreMatrix (Fin 400) (Fin 400) (Some 0) (Some (Fin (- 0.13))) = [[NaN]]"
proof -
  have "cellRaw (Fin 400) (Fin 400) (Fin (- 0.13)) 0 0 = Fin 0"
    unfolding cellRaw_def poisson_400_zero times_exp_400 by (simp add: dixonColesTau_Fin)
  then show ?thesis
    by (simp add: calculateScoreMatrix_grid upto_0_0 gridTotal_def signed_inf_def)
qed

lemma cellRaw_two_rho_9:
  "cellRaw (Fin 2) (Fin 2) (Fin 9) 0 0 = Fin (- 8 * exp (- 4))"
  "cellRaw (Fin 2) (Fin 2) (Fin 9) 0 1 = Fin (20 * exp (- 4))"
  "cellRaw (Fin 2) (Fin 2) (Fin 9) 1 0 = Fin (20 * exp (- 4))"
  "cellRaw (Fin 2) (Fin 2) (Fin 9) 1 1 = Fin (- 32 * exp (- 4))"
proof -
  have p0: "poissonProbability (Fin 2) 0 = Fin (1 * exp (- 2))"
    by (simp add: poisson_two_zero)
  have "cellRaw (Fin 2) (Fin 2) (Fin 9) 0 0 = Fin (1 * 1 * (- 8) * exp (- 2 + - 2))"
    by (rule cellRaw_scaled [OF p0 p0]) (simp_all add: dixonColesTau_Fin)
  then show "cellRaw (Fin 2) (Fin 2) (Fin 9) 0 0 = Fin (- 8 * exp (- 4))"
    by simp
  have "cellRaw (Fin 2) (Fin 2) (Fin 9) 0 1 = Fin (1 * 2 * 10 * exp (- 2 + - 2))"
    by (rule cellRaw_scaled [OF p0 poisson_two_one]) (simp_all add: dixonColesTau_Fin)
  then show "cellRaw (Fin 2) (Fin 2) (Fin 9) 0 1 = Fin (20 * exp (- 4))"
    by simp
  have "cellRaw (Fin 2) (Fin 2) (Fin 9) 1 0 = Fin (2 * 1 * 10 * exp (- 2 + - 2))"
    by (rule cellRaw_scaled [OF poisson_two_one p0]) (simp_all add: dixonColesTau_Fin)
  then show "cellRaw (Fin 2) (Fin 2) (Fin 9) 1 0 = Fin (20 * exp (- 4))"
    by simp
  have "cellRaw (Fin 2) (Fin 2) (Fin 9) 1 1 = Fin (2 * 2 * (- 8) * exp (- 2 + - 2))"
    by (rule cellRaw_scaled [OF poisson_two_one poisson_two_one]) (simp_all add: dixonColesTau_Fin)
  then show "cellRaw (Fin 2) (Fin 2) (Fin 9) 1 1 = Fin (- 32 * exp (- 4))"
    by simp
qed

lemma scoreMatrix_two_rho_9:
  "calculateScoreMatrix (Fin 2) (Fin 2) (Some 1) (Some (Fin 9)) = [[NegInf, PosInf], [PosInf, NegInf]]"
proof -
  have "gridTotal (Fin 2) (Fin 2) 1 (Fin 9) = Fin 0"
    by (simp add: gridTotal_def int_set_0_1 cellRaw_two_rho_9)
  then show ?thesis
    by (simp add: calculateScoreMatrix_grid upto_0_1 cellRaw_two_rho_9 signed_inf_def)
qed

lemma predictMatch_1000:
  "probHome (predictMatch (Fin 1000) (Fin 1000)) = NaN"
  "probDraw (predictMatch (Fin 1000) (Fin 1000)) = NaN"
  "probAway (predictMatch (Fin 1000) (Fin 1000)) = NaN"
proof -
  let ?M = "calculateScoreMatrix (Fin 1000) (Fin 1000) None None"
  have c10: "?M ! nat 1 ! nat 0 = NaN" and c00: "?M ! nat 0 ! nat 0 = NaN"
    and c01: "?M ! nat 0 ! nat 1 = NaN"
    by (rule scoreMatrix_1000; simp)+
  have "sumCells (\<lambda>h a. a < h) ?M = NaN"
    by (rule sumCells_NaN [OF _ _ _ _ _ c10]) (simp_all add: length_scoreMatrix_default)
  then show "probHome (predictMatch (Fin 1000) (Fin 1000)) = NaN"
    by (simp add: predictMatch_fields Let_def)
  have "sumCells (\<lambda>h a. h = a) ?M = NaN"
    by (rule sumCells_NaN [OF _ _ _ _ _ c00]) (simp_all add: length_scoreMatrix_default)
  then show "probDraw (predictMatch (Fin 1000) (Fin 1000)) = NaN"
    by (simp add: predictMatch_fields Let_def)
  have "sumCells (\<lambda>h a. h < a) ?M = NaN"
    by (rule sumCells_NaN [OF _ _ _ _ _ c01]) (simp_all add: length_scoreMatrix_default)
  then show "probAway (predictMatch (Fin 1000) (Fin 1000)) = NaN"
    by (simp add: predictMatch_fields Let_def)
qed

section \<open>The claims\<close>

text \<open>
  The statements below are about the model of JavaScript numbers given at the top. A finite
  value of the model is the double of the code up to the rounding of each operation, so
  an equation between finite values reads "equal up to rounding" for the code; the special
  values, the zeros produced by underflow and the shape of the results are those of the
  code. Where a result of the code is decided by a comparison of two computed numbers, the
  statement keeps the comparison between the computed numbers.
\<close>

subsection \<open>Score matrix\<close>

text \<open>
  C1 (amended). For rates \<open>\<lambda>Home > 0\<close> and \<open>\<lambda>Away > 0\<close> with \<open>\<lambda>Home + \<lambda>Away \<le> 600\<close>, a bound
  \<open>maxGoals \<ge> 0\<close> and a correlation parameter with \<open>-1 \<le> \<rho> \<le> 1\<close>, where either
  \<open>\<rho> \<le> 1 - 2^-53\<close> (every double below 1) or \<open>maxGoals \<ge> 1\<close> and one of the rates is at
  least \<open>2^-52\<close>: the matrix has \<open>maxGoals + 1\<close> rows of \<open>maxGoals + 1\<close> cells, every cell is
  a probability between 0 and 1, and the cells sum to 1. Outside these ranges the
  statement fails: see the counterexample below.
\<close>

theorem scoreMatrix_normalized:
  assumes "0 < x" "0 < y" "x + y \<le> 600" "0 \<le> m" "- 1 \<le> r" "r \<le> 1"
    and "r \<le> 1 - 1 / 2 ^ 53 \<or> 0 < m \<and> (1 / 2 ^ 52 \<le> x \<or> 1 / 2 ^ 52 \<le> y)"
    and "0 \<le> h" "h \<le> m" "0 \<le> a" "a \<le> m"
  shows "sum_list (concat (calculateScoreMatrix (Fin x) (Fin y) (Some m) (Some (Fin r)))) = Fin 1
    \<and> length (calculateScoreMatrix (Fin x) (Fin y) (Some m) (Some (Fin r))) = nat (m + 1)
    \<and> length (calculateScoreMatrix (Fin x) (Fin y) (Some m) (Some (Fin r)) ! nat h) = nat (m + 1)
    \<and> Fin 0 \<le> calculateScoreMatrix (Fin x) (Fin y) (Some m) (Some (Fin r)) ! nat h ! nat a
    \<and> calculateScoreMatrix (Fin x) (Fin y) (Some m) (Some (Fin r)) ! nat h ! nat a \<le> Fin 1"
proof -
  obtain p where "calculateScoreMatrix (Fin x) (Fin y) (Some m) (Some (Fin r)) ! nat h ! nat a = Fin p"
      "0 \<le> p" "p \<le> 1"
    using scoreMatrix_cells [OF assms] by blast
  moreover have "length (calculateScoreMatrix (Fin x) (Fin y) (Some m) (Some (Fin r)) ! nat h) = nat (m + 1)"
    using assms(8,9) by (simp add: calculateScoreMatrix_grid)
  ultimately show ?thesis
    using scoreMatrix_total [OF assms(1-7)] by (simp add: length_calculateScoreMatrix)
qed

theorem scoreMatrix_normalized_witness:
  "sum_list (concat (calculateScoreMatrix (Fin 1.5) (Fin 1.2) (Some 10) (Some (Fin (- 0.13))))) = Fin 1
    \<and> length (calculateScoreMatrix (Fin 1.5) (Fin 1.2) (Some 10) (Some (Fin (- 0.13)))) = 11
    \<and> Fin 0 \<le> calculateScoreMatrix (Fin 1.5) (Fin 1.2) (Some 10) (Some (Fin (- 0.13))) ! 2 ! 1
    \<and> calculateScoreMatrix (Fin 1.5) (Fin 1.2) (Some 10) (Some (Fin (- 0.13))) ! 2 ! 1 \<le> Fin 1"
  using scoreMatrix_normalized [of "1.5" "1.2" 10 "- 0.13" 2 1] by simp

text \<open>
  The claim as stated, for all positive rates and every \<open>\<rho>\<close>, fails in both halves and on
  both parameters.

  \<^item> A cell can be negative: with both rates 1, \<open>maxGoals = 1\<close> and \<open>\<rho> = 2\<close> the cell
    \<open>(0, 0)\<close> is \<open>-1/4\<close>.
  \<^item> The cells need not sum to 1 when \<open>\<rho>\<close> is outside \<open>[-1, 1]\<close>: the corrected cells then
    have both signs and their total can cancel. With both rates 2, \<open>maxGoals = 1\<close> and
    \<open>\<rho> = 9\<close> the four corrected cells are \<open>-8\<close>, \<open>20\<close>, \<open>20\<close> and \<open>-32\<close> times \<open>exp (-4)\<close>,
    the total is 0, the cells of the result are \<open>-Infinity\<close> and \<open>+Infinity\<close>, and their
    sum is \<open>NaN\<close>.
  \<^item> With \<open>maxGoals = 0\<close> and \<open>\<rho> = 1\<close> the only cell is \<open>0 / 0 = NaN\<close>.
  \<^item> With both rates 400 (\<open>maxGoals = 0\<close>, the default \<open>\<rho> = -0.13\<close>) the product
    \<open>exp (-400) * exp (-400)\<close> underflows to 0, and the only cell is \<open>0 / 0 = NaN\<close>.
\<close>

theorem scoreMatrix_unrestricted_counterexample:
  "calculateScoreMatrix (Fin 1) (Fin 1) (Some 1) (Some (Fin 2)) ! 0 ! 0 = Fin (- (1 / 4))
    \<and> \<not> Fin 0 \<le> calculateScoreMatrix (Fin 1) (Fin 1) (Some 1) (Some (Fin 2)) ! 0 ! 0
    \<and> calculateScoreMatrix (Fin 2) (Fin 2) (Some 1) (Some (Fin 9)) =
        [[NegInf, PosInf], [PosInf, NegInf]]
    \<and> sum_list (concat (calculateScoreMatrix (Fin 2) (Fin 2) (Some 1) (Some (Fin 9)))) \<noteq> Fin 1
    \<and> calculateScoreMatrix (Fin 1) (Fin 1) (Some 0) (Some (Fin 1)) = [[NaN]]
    \<and> calculateScoreMatrix (Fin 400) (Fin 400) (Some 0) (Some (Fin (- 0.13))) = [[NaN]]
    \<and> sum_list (concat (calculateScoreMatrix (Fin 400) (Fin 400) (Some 0) (Some (Fin (- 0.13)))))
        \<noteq> Fin 1"
  unfolding scoreMatrix_one_rho_2 scoreMatrix_two_rho_9 scoreMatrix_one_rho_1 scoreMatrix_400
  by simp

text \<open>
  C8 (amended). With \<open>\<rho> = 0\<close> every correction factor is 1, and the matrix is the grid of
  products of the two Poisson probabilities after normalization: the cell \<open>(h, a)\<close> is the
  product divided by the sum of the products over the grid \<open>0..maxGoals\<close>. It is not the
  product itself, since the truncated grid sums to less than 1: see the counterexample
  below.
\<close>

theorem scoreMatrix_rho_zero:
  assumes "0 \<le> h" "h \<le> m" "0 \<le> a" "a \<le> m"
  shows "dixonColesTau h a (Fin 0) = Fin 1
    \<and> calculateScoreMatrix lh la (Some m) (Some (Fin 0)) = normalize_matrix (firstPass lh la m) m
    \<and> calculateScoreMatrix lh la (Some m) (Some (Fin 0)) ! nat h ! nat a =
        poissonProbability lh h * poissonProbability la a / sum_list (concat (firstPass lh la m))"
proof -
  have second: "secondPass (firstPass lh la m) m (Fin 0) = firstPass lh la m"
    unfolding secondPass_firstPass
    by (simp add: firstPass_def cellRaw_def dixonColesTau_zero times_times_Fin_1)
  have "normalize_matrix (firstPass lh la m) m ! nat h ! nat a =
          poissonProbability lh h * poissonProbability la a / sum_list (concat (firstPass lh la m))"
    using assms unfolding firstPass_def Let_def normalize_grid grid_sum
    by (simp only: grid_nth)
  then show ?thesis
    by (simp add: calculateScoreMatrix_def second dixonColesTau_zero)
qed

theorem scoreMatrix_rho_zero_witness:
  "dixonColesTau 1 1 (Fin 0) = Fin 1
    \<and> calculateScoreMatrix (Fin 1.5) (Fin 1.2) (Some 10) (Some (Fin 0)) =
        normalize_matrix (firstPass (Fin 1.5) (Fin 1.2) 10) 10
    \<and> calculateScoreMatrix (Fin 1.5) (Fin 1.2) (Some 10) (Some (Fin 0)) ! nat 1 ! nat 1 =
        poissonProbability (Fin 1.5) 1 * poissonProbability (Fin 1.2) 1 /
          sum_list (concat (firstPass (Fin 1.5) (Fin 1.2) 10))"
  by (rule scoreMatrix_rho_zero) simp_all

text \<open>
  The claim as stated fails: with both rates 1 and \<open>maxGoals = 0\<close> the only cell of the
  matrix is 1, and the product of the two Poisson probabilities of zero goals is
  \<open>exp (-2)\<close>.
\<close>

theorem scoreMatrix_rho_zero_counterexample:
  "calculateScoreMatrix (Fin 1) (Fin 1) (Some 0) (Some (Fin 0)) = [[Fin 1]]
    \<and> poissonProbability (Fin 1) 0 * poissonProbability (Fin 1) 0 = Fin (exp (- 2))
    \<and> Fin (exp (- 2)) \<noteq> Fin 1"
proof -
  have prod: "Fin (exp (- 1)) * Fin (exp (- 1)) = Fin (exp (- 2))"
    using times_exp [of "- 1" "- 1"] by simp
  have "cellRaw (Fin 1) (Fin 1) (Fin 0) 0 0 = Fin (exp (- 2))"
    unfolding cellRaw_def poisson_one_zero dixonColesTau_zero times_times_Fin_1 by (rule prod)
  then have "calculateScoreMatrix (Fin 1) (Fin 1) (Some 0) (Some (Fin 0)) = [[Fin 1]]"
    by (simp add: calculateScoreMatrix_grid upto_0_0 gridTotal_def)
  then show ?thesis
    unfolding poisson_one_zero prod by simp
qed

subsection \<open>Numeric primitives\<close>

text \<open>
  C5. At rate 0 the Poisson primitive is meant to put all mass on zero goals. The code
  returns \<open>NaN\<close> for zero goals: \<open>0 * Math.log(0)\<close> is \<open>0 * -Infinity\<close>. (For every \<open>k > 0\<close>
  it does return 0: lemma \<open>poissonProbability_zero_rate_pos\<close>.) The \<open>NaN\<close> reaches the
  result of \<open>predictMatch\<close> when the home rate is 0.
\<close>

theorem poissonProbability_zero_rate_zero_goals:
  "poissonProbability (Fin 0) 0 = NaN
    \<and> prob0_0 (predictMatch (Fin 0) lambdaAway) = NaN"
proof -
  have p: "poissonProbability (Fin 0) 0 = NaN"
    by (simp add: poissonProbability_def logFactorial_def signed_inf_def)
  have "calculateScoreMatrix (Fin 0) lambdaAway (Some 10) (Some (Fin (- 0.13))) ! nat 0 ! nat 0 =
          cellRaw (Fin 0) lambdaAway (Fin (- 0.13)) 0 0 / gridTotal (Fin 0) lambdaAway 10 (Fin (- 0.13))"
    by (rule calculateScoreMatrix_nth) simp_all
  also have "\<dots> = NaN"
    by (simp add: cellRaw_def p)
  finally have "prob0_0 (predictMatch (Fin 0) lambdaAway) = NaN"
    by (simp add: predictMatch_fields Let_def calculateScoreMatrix_defaults)
  with p show ?thesis
    by simp
qed

text \<open>
  C9. \<open>logFactorial k\<close> is 0 for \<open>k \<le> 1\<close>, the sum of \<open>ln i\<close> for \<open>i\<close> from 2 to \<open>k\<close> for
  \<open>2 \<le> k < 20\<close>, and Stirling's formula \<open>k ln k - k + 0.5 ln (2 \<pi> k)\<close> from 20 on.
\<close>

theorem logFactorial_branches:
  "logFactorial k =
     (if k \<le> 1 then Fin 0
      else if k < 20 then Fin (\<Sum>i\<in>{2..k}. ln (real_of_int i))
      else Fin (real_of_int k * ln (real_of_int k) - real_of_int k
                + 0.5 * ln (2 * pi * real_of_int k)))"
  by (rule logFactorial_value)

subsection \<open>Outcome aggregator\<close>

text \<open>
  C2 (amended). For rates \<open>\<lambda>Home > 0\<close> and \<open>\<lambda>Away > 0\<close> with \<open>\<lambda>Home + \<lambda>Away \<le> 600\<close> the
  three outcome probabilities of \<open>predictMatch\<close> sum to 1, where \<open>probHome\<close> sums the cells
  with \<open>home > away\<close>, \<open>probDraw\<close> the cells with \<open>home = away\<close> and \<open>probAway\<close> the cells with
  \<open>home < away\<close>. For larger rates the statement fails: see the counterexample below.
\<close>

theorem predictMatch_outcomes_sum:
  assumes "0 < x" "0 < y" "x + y \<le> 600"
  shows "probHome (predictMatch (Fin x) (Fin y)) + probDraw (predictMatch (Fin x) (Fin y))
           + probAway (predictMatch (Fin x) (Fin y)) = Fin 1
    \<and> probHome (predictMatch (Fin x) (Fin y)) =
        sumCells (\<lambda>h a. a < h) (calculateScoreMatrix (Fin x) (Fin y) None None)
    \<and> probDraw (predictMatch (Fin x) (Fin y)) =
        sumCells (\<lambda>h a. h = a) (calculateScoreMatrix (Fin x) (Fin y) None None)
    \<and> probAway (predictMatch (Fin x) (Fin y)) =
        sumCells (\<lambda>h a. h < a) (calculateScoreMatrix (Fin x) (Fin y) None None)"
proof -
  have "sum_list (concat (calculateScoreMatrix (Fin x) (Fin y) (Some 10) (Some (Fin (- 0.13))))) = Fin 1"
    using assms by (intro scoreMatrix_total) simp_all
  then have "probHome (predictMatch (Fin x) (Fin y)) + probDraw (predictMatch (Fin x) (Fin y))
           + probAway (predictMatch (Fin x) (Fin y)) = Fin 1"
    unfolding predictMatch_result_sum .
  then show ?thesis
    by (simp add: predictMatch_fields Let_def)
qed

theorem predictMatch_outcomes_sum_witness:
  "probHome (predictMatch (Fin 1.5) (Fin 1.2)) + probDraw (predictMatch (Fin 1.5) (Fin 1.2))
     + probAway (predictMatch (Fin 1.5) (Fin 1.2)) = Fin 1"
proof -
  have "(0::real) < 1.5" "(0::real) < 1.2" "(1.5::real) + 1.2 \<le> 600"
    by simp_all
  then show ?thesis
    by (rule predictMatch_outcomes_sum [THEN conjunct1])
qed

text \<open>
  The claim as stated, for all positive rates, fails: with both rates 1000 every Poisson
  value \<open>exp (k ln 1000 - 1000 - ln k!)\<close> for \<open>k \<le> 10\<close> underflows to 0, the total of the
  grid is 0, every cell is \<open>0 / 0 = NaN\<close>, and so are the three outcome probabilities and
  their sum.
\<close>

theorem predictMatch_outcomes_sum_counterexample:
  "probHome (predictMatch (Fin 1000) (Fin 1000)) = NaN
    \<and> probDraw (predictMatch (Fin 1000) (Fin 1000)) = NaN
    \<and> probAway (predictMatch (Fin 1000) (Fin 1000)) = NaN
    \<and> probHome (predictMatch (Fin 1000) (Fin 1000)) + probDraw (predictMatch (Fin 1000) (Fin 1000))
        + probAway (predictMatch (Fin 1000) (Fin 1000)) \<noteq> Fin 1"
  unfolding predictMatch_1000 by simp

text \<open>
  C6. \<open>probOver2_5\<close> is the sum of the cells whose total \<open>home + away\<close> is strictly above
  2.5, and these are the cells with \<open>home + away \<ge> 3\<close>.
\<close>

theorem predictMatch_over2_5:
  "probOver2_5 (predictMatch lh la) =
     sumCells (\<lambda>h a. 2.5 < real_of_int (h + a)) (calculateScoreMatrix lh la None None)
   \<and> sumCells (\<lambda>h a. 2.5 < real_of_int (h + a)) (calculateScoreMatrix lh la None None) =
     sumCells (\<lambda>h a. 3 \<le> h + a) (calculateScoreMatrix lh la None None)"
  unfolding over_threshold_real by (simp add: predictMatch_fields Let_def)

text \<open>
  C10. \<open>predictMatch\<close> aggregates the matrix built with \<open>maxGoals = 10\<close> and \<open>\<rho> = -0.13\<close>,
  which has 11 rows, and returns the two rates unchanged as \<open>xgHome\<close> and \<open>xgAway\<close>.
\<close>

theorem predictMatch_defaults:
  "predictMatch lh la =
     (let M = calculateScoreMatrix lh la (Some 10) (Some (Fin (- 0.13))) in
      \<lparr>probHome = sumCells (\<lambda>h a. a < h) M,
       probDraw = sumCells (\<lambda>h a. h = a) M,
       probAway = sumCells (\<lambda>h a. h < a) M,
       xgHome = lh, xgAway = la, prob0_0 = M ! 0 ! 0,
       probOver2_5 = sumCells (\<lambda>h a. 3 \<le> h + a) M,
       probBTTS = sumCells (\<lambda>h a. 0 < h \<and> 0 < a) M\<rparr>)
   \<and> length (calculateScoreMatrix lh la (Some 10) (Some (Fin (- 0.13)))) = 11"
  unfolding predictMatch_fields calculateScoreMatrix_defaults
  by (simp add: length_calculateScoreMatrix)

subsection \<open>Market-efficiency analyzers\<close>





end
